theory Spec2Isabelle
  imports Main
begin

section \<open>Data model of \<open>pulp_file/app/tasks.py\<close>\<close>

text \<open>
  The natural key of a file content unit:
  \<^verbatim>\<open>Key = namedtuple('Key', ('path', 'digest'))\<close>.
\<close>

datatype key = Key (path: string) (digest: string)

text \<open>
  A manifest entry, \<^verbatim>\<open>Entry(path, digest, size)\<close> of \<^verbatim>\<open>pulp_file.manifest\<close>.
  The manifest module is not among the sources: a manifest is represented by the
  sequence of entries that \<^verbatim>\<open>Manifest.read()\<close> yields, the same on every read.
\<close>

record entry =
  entry_path :: string
  entry_digest :: string
  entry_size :: int

type_synonym manifest = "entry list"

text \<open>Exceptions of the tasks; \<open>Raised\<close> is any other exception of a collaborator.\<close>

datatype exn =
  ValueError | AttributeError | TypeError | DoesNotExist | MultipleObjectsReturned | Raised string

type_synonym pk = string

text \<open>\<^verbatim>\<open>models.Artifact(size=..., sha256=...)\<close>\<close>

record artifact =
  artifact_size :: int
  sha256 :: string

text \<open>A \<^verbatim>\<open>ContentArtifact\<close> row: its relative path and its artifact, if downloaded.\<close>

record content_artifact =
  ca_id :: nat
  relative_path :: string
  ca_artifact :: "artifact option"

text \<open>A stored content unit, after \<^verbatim>\<open>cast()\<close> to \<^verbatim>\<open>FileContent\<close>.\<close>

record content_unit =
  content_id :: nat
  content_path :: string
  content_digest :: string
  contentartifact_set :: "content_artifact list"

text \<open>An unsaved \<^verbatim>\<open>file_models.FileContent(path=..., digest=...)\<close>.\<close>

record file_content =
  fc_path :: string
  fc_digest :: string

text \<open>\<^verbatim>\<open>PendingArtifact(artifact, url, relative_path)\<close>\<close>

record pending_artifact =
  pa_model :: artifact
  pa_url :: string
  pa_relative_path :: string

text \<open>\<^verbatim>\<open>PendingContent(model, artifacts={...})\<close>\<close>

record pending_content =
  pc_model :: file_content
  pc_artifacts :: "pending_artifact set"

text \<open>\<^verbatim>\<open>SizedIterable(iterable, length)\<close>: the items and the length declared for them.\<close>

record 'a sized_iterable =
  iterable :: "'a list"
  declared_length :: nat

record importer =
  importer_name :: string
  feed_url :: "string option"
  importer_repository :: pk

record repository_version =
  version_id :: nat
  version_repository :: pk
  number :: int
  complete :: bool
  content :: "content_unit list"

section \<open>The synchronizer\<close>

record synchronizer =
  importer :: importer
  new_version :: repository_version
  old_version :: "repository_version option"
  manifest :: "manifest option"
  inventory_keys :: "key set"
  keys_to_add :: "key set"
  keys_to_remove :: "key set"

text \<open>\<^verbatim>\<open>Synchronizer.__init__\<close>\<close>

definition Synchronizer ::
  "importer \<Rightarrow> repository_version \<Rightarrow> repository_version option \<Rightarrow> synchronizer" where
  "Synchronizer imp new_v old_v =
     \<lparr>importer = imp, new_version = new_v, old_version = old_v, manifest = None,
      inventory_keys = {}, keys_to_add = {}, keys_to_remove = {}\<rparr>"

text \<open>
  \<^verbatim>\<open>_fetch_manifest\<close>: the downloader of the importer is a collaborator; \<open>download\<close>
  is what fetching the feed gives, an exception or the manifest.
\<close>

definition fetch_manifest ::
  "(string option \<Rightarrow> exn + manifest) \<Rightarrow> synchronizer \<Rightarrow> exn + synchronizer" where
  "fetch_manifest download s =
     (case download (feed_url (importer s)) of
        Inl e \<Rightarrow> Inl e
      | Inr m \<Rightarrow> Inr (s\<lparr>manifest := Some m\<rparr>))"

text \<open>The loop of \<^verbatim>\<open>_fetch_inventory\<close>: one key added per content unit.\<close>

fun inventory_loop :: "content_unit list \<Rightarrow> key set \<Rightarrow> key set" where
  "inventory_loop [] ks = ks"
| "inventory_loop (c # cs) ks =
     inventory_loop cs (insert (Key (content_path c) (content_digest c)) ks)"

definition fetch_inventory :: "synchronizer \<Rightarrow> synchronizer" where
  "fetch_inventory s =
     (case old_version s of
        None \<Rightarrow> s
      | Some v \<Rightarrow> s\<lparr>inventory_keys := inventory_loop (content v) (inventory_keys s)\<rparr>)"

text \<open>
  \<^verbatim>\<open>_find_delta(mirror=True)\<close>. Reading a manifest that was never fetched is an
  attribute access on \<^verbatim>\<open>None\<close>.
\<close>

definition find_delta :: "bool \<Rightarrow> synchronizer \<Rightarrow> exn + synchronizer" where
  "find_delta mirror s =
     (case manifest s of
        None \<Rightarrow> Inl AttributeError
      | Some m \<Rightarrow>
          (let remote_keys = set (map (\<lambda>e. Key (entry_path e) (entry_digest e)) m);
               s1 = s\<lparr>keys_to_add := remote_keys - inventory_keys s\<rparr>
           in Inr (if mirror
                   then s1\<lparr>keys_to_remove := inventory_keys s - remote_keys\<rparr>
                   else s1)))"

text \<open>
  \<^verbatim>\<open>urllib.parse.ParseResult\<close>, the six components of a URL. The parser and the
  unparser of the library, \<^verbatim>\<open>urlparse\<close> and \<^verbatim>\<open>urlunparse\<close>, are parameters of
  the model.
\<close>

record parse_result =
  scheme :: string
  netloc :: string
  url_path :: string
  params :: string
  query :: string
  fragment :: string

text \<open>
  \<^verbatim>\<open>os.path.dirname\<close> (posixpath): the head up to the last slash, its trailing
  slashes stripped unless it consists of slashes only.
\<close>

definition dirname :: "string \<Rightarrow> string" where
  "dirname p =
     (let head = rev (dropWhile (\<lambda>c. c \<noteq> CHR ''/'') (rev p))
      in if head \<noteq> [] \<and> head \<noteq> replicate (length head) (CHR ''/'')
         then rev (dropWhile (\<lambda>c. c = CHR ''/'') (rev head))
         else head)"

text \<open>\<^verbatim>\<open>os.path.join(a, b)\<close> (posixpath), for two components.\<close>

definition join :: "string \<Rightarrow> string \<Rightarrow> string" where
  "join a b =
     (if take 1 b = ''/'' then b
      else if a = [] \<or> last a = CHR ''/'' then a @ b
      else a @ ''/'' @ b)"

text \<open>
  The loop of \<^verbatim>\<open>_build_additions\<close> over the entries of the manifest; the result is
  the sequence of the generator's yields.
\<close>

fun additions_loop ::
  "(parse_result \<Rightarrow> string) \<Rightarrow> parse_result \<Rightarrow> string \<Rightarrow> key set \<Rightarrow> entry list
     \<Rightarrow> pending_content list" where
  "additions_loop urlunparse parsed_url root_dir to_add [] = []"
| "additions_loop urlunparse parsed_url root_dir to_add (e # es) =
     (if Key (entry_path e) (entry_digest e) \<notin> to_add
      then additions_loop urlunparse parsed_url root_dir to_add es
      else
        (let p = join root_dir (entry_path e);
             url = urlunparse (parsed_url\<lparr>url_path := p\<rparr>);
             file = \<lparr>fc_path = entry_path e, fc_digest = entry_digest e\<rparr>;
             artifact = \<lparr>artifact_size = entry_size e, sha256 = entry_digest e\<rparr>;
             cont = \<lparr>pc_model = file,
                     pc_artifacts =
                       {\<lparr>pa_model = artifact, pa_url = url,
                         pa_relative_path = entry_path e\<rparr>}\<rparr>
         in cont # additions_loop urlunparse parsed_url root_dir to_add es))"

text \<open>
  \<^verbatim>\<open>_build_additions\<close>, drained: the descriptors yielded, or the exception raised
  before the first of them. With a feed URL of \<^verbatim>\<open>None\<close> the library parses to
  empty byte strings, and joining the first selected entry's path to them is a
  type error.
\<close>

definition build_additions ::
  "(string \<Rightarrow> parse_result) \<Rightarrow> (parse_result \<Rightarrow> string) \<Rightarrow> synchronizer
     \<Rightarrow> exn + pending_content list" where
  "build_additions urlparse urlunparse s =
     (case manifest s of
        None \<Rightarrow> Inl AttributeError
      | Some m \<Rightarrow>
          (case feed_url (importer s) of
             None \<Rightarrow>
               (if filter (\<lambda>e. Key (entry_path e) (entry_digest e) \<in> keys_to_add s) m = []
                then Inr [] else Inl TypeError)
           | Some u \<Rightarrow>
               (let parsed_url = urlparse u;
                    root_dir = dirname (url_path parsed_url)
                in Inr (additions_loop urlunparse parsed_url root_dir (keys_to_add s) m))))"

text \<open>
  \<^verbatim>\<open>BatchIterator\<close> of the plugin API: the items in tuples of at most \<open>n\<close>; it
  stops at the first empty tuple.
\<close>

function batches :: "nat \<Rightarrow> 'a list \<Rightarrow> 'a list list" where
  "batches n xs = (if n = 0 \<or> xs = [] then [] else take n xs # batches n (drop n xs))"
  by pat_completeness auto
termination
  by (relation "measure (\<lambda>(n, xs). length xs)") auto

declare batches.simps [simp del]

text \<open>
  The query \<^verbatim>\<open>q\<close> of \<^verbatim>\<open>_build_removals\<close>: \<open>None\<close> is the empty \<^verbatim>\<open>Q()\<close>, which
  a disjunction absorbs and which filters nothing out.
\<close>

fun build_q ::
  "key list \<Rightarrow> (content_unit \<Rightarrow> bool) option \<Rightarrow> (content_unit \<Rightarrow> bool) option" where
  "build_q [] q = q"
| "build_q (k # ks) q =
     build_q ks
       (Some (\<lambda>c. (case q of None \<Rightarrow> False | Some p \<Rightarrow> p c)
                 \<or> (content_path c = path k \<and> content_digest c = digest k)))"

definition filter_q :: "(content_unit \<Rightarrow> bool) option \<Rightarrow> content_unit list \<Rightarrow> content_unit list" where
  "filter_q q cs = (case q of None \<Rightarrow> cs | Some p \<Rightarrow> filter p cs)"

text \<open>
  The outer loop of \<^verbatim>\<open>_build_removals\<close> over the batches: each batch is looked up
  in the content of the old version and the identifiers of the matches are yielded.
  Without an old version the lookup is an attribute access on \<^verbatim>\<open>None\<close>.
\<close>

fun removals_loop :: "repository_version option \<Rightarrow> key list list \<Rightarrow> exn + nat list" where
  "removals_loop ov [] = Inr []"
| "removals_loop ov (natural_keys # rest) =
     (case ov of
        None \<Rightarrow> Inl AttributeError
      | Some v \<Rightarrow>
          (case removals_loop ov rest of
             Inl e \<Rightarrow> Inl e
           | Inr ids \<Rightarrow>
               Inr (map content_id (filter_q (build_q natural_keys None) (content v)) @ ids)))"

text \<open>
  \<^verbatim>\<open>_build_removals\<close>, drained. \<open>iter_keys\<close> is the order in which the set of keys
  is iterated and \<open>n\<close> the batch size.
\<close>

definition build_removals ::
  "(key set \<Rightarrow> key list) \<Rightarrow> nat \<Rightarrow> synchronizer \<Rightarrow> exn + nat list" where
  "build_removals iter_keys n s =
     removals_loop (old_version s) (batches n (iter_keys (keys_to_remove s)))"

text \<open>
  The external collaborators of a sync: the downloader, the URL library, the iteration
  order of a set of keys, the batch size of \<^verbatim>\<open>BatchIterator\<close>, and the apply engine
  (\<^verbatim>\<open>ChangeSet.apply_and_drain\<close>), which raises or leaves the new version with some
  content.
\<close>

record collaborators =
  download :: "string option \<Rightarrow> exn + manifest"
  urlparse :: "string \<Rightarrow> parse_result"
  urlunparse :: "parse_result \<Rightarrow> string"
  iter_keys :: "key set \<Rightarrow> key list"
  batch_size :: nat
  apply_and_drain ::
    "importer \<Rightarrow> repository_version \<Rightarrow> pending_content sized_iterable \<Rightarrow> nat sized_iterable
       \<Rightarrow> exn + content_unit list"

text \<open>
  \<^verbatim>\<open>Synchronizer.run\<close> up to the construction of the change set: the synchronizer
  after the delta, and the two sized iterables handed to the apply engine. A
  generator that raises does so when the engine drains it.
\<close>

definition run_changes ::
  "collaborators \<Rightarrow> synchronizer
     \<Rightarrow> exn + synchronizer \<times> pending_content sized_iterable \<times> nat sized_iterable" where
  "run_changes env s =
     (case fetch_manifest (download env) s of
        Inl e \<Rightarrow> Inl e
      | Inr s1 \<Rightarrow>
          (case find_delta True (fetch_inventory s1) of
             Inl e \<Rightarrow> Inl e
           | Inr s2 \<Rightarrow>
               (case build_additions (urlparse env) (urlunparse env) s2 of
                  Inl e \<Rightarrow> Inl e
                | Inr adds \<Rightarrow>
                    (case build_removals (iter_keys env) (batch_size env) s2 of
                       Inl e \<Rightarrow> Inl e
                     | Inr rems \<Rightarrow>
                         Inr (s2,
                              \<lparr>iterable = adds, declared_length = card (keys_to_add s2)\<rparr>,
                              \<lparr>iterable = rems, declared_length = card (keys_to_remove s2)\<rparr>)))))"

text \<open>\<^verbatim>\<open>Synchronizer.run\<close>: the content the engine leaves in the new version, or the exception.\<close>

definition run :: "collaborators \<Rightarrow> synchronizer \<Rightarrow> exn + content_unit list" where
  "run env s =
     (case run_changes env s of
        Inl e \<Rightarrow> Inl e
      | Inr (s', additions, removals) \<Rightarrow>
          apply_and_drain env (importer s') (new_version s') additions removals)"

section \<open>The database and the tasks\<close>

record repository =
  repository_name :: string
  last_version :: int

record publisher =
  publisher_name :: string

text \<open>The object a \<^verbatim>\<open>CreatedResource\<close> tracks, by its primary key.\<close>

datatype resource = VersionResource nat | PublicationResource nat

record created_resource =
  cr_id :: nat
  content_object :: resource

record publication =
  publication_id :: nat
  publication_publisher :: pk
  publication_version :: nat

record published_artifact =
  published_id :: nat
  published_relative_path :: string
  published_publication :: nat
  published_content_artifact :: nat

record published_metadata =
  metadata_id :: nat
  metadata_relative_path :: string
  metadata_publication :: nat
  metadata_file :: "entry list"

text \<open>A \<^verbatim>\<open>RemoteArtifact\<close> row: a content artifact as a repository's importer knows it.\<close>

record remote_artifact =
  ra_content_artifact :: nat
  ra_repository :: pk
  ra_artifact :: artifact

text \<open>
  The tables the tasks read and write. Rows created by a task take their primary keys
  from \<open>next_id\<close>.
\<close>

record db =
  importers :: "pk \<rightharpoonup> importer"
  publishers :: "pk \<rightharpoonup> publisher"
  repositories :: "pk \<rightharpoonup> repository"
  versions :: "repository_version list"
  created_resources :: "created_resource list"
  publications :: "publication list"
  published_artifacts :: "published_artifact list"
  published_metadatas :: "published_metadata list"
  remote_artifacts :: "remote_artifact list"
  next_id :: nat

text \<open>\<^verbatim>\<open>latest()\<close> of a query set of versions: the one with the greatest number.\<close>

fun latest :: "repository_version list \<Rightarrow> repository_version option" where
  "latest [] = None"
| "latest (v # vs) =
     (case latest vs of
        None \<Rightarrow> Some v
      | Some w \<Rightarrow> if number w < number v then Some v else Some w)"

text \<open>\<^verbatim>\<open>repository.versions.exclude(complete=False).latest()\<close>; \<open>None\<close> is \<^verbatim>\<open>DoesNotExist\<close>.\<close>

definition latest_complete :: "db \<Rightarrow> pk \<Rightarrow> repository_version option" where
  "latest_complete d r =
     latest (filter (\<lambda>v. version_repository v = r \<and> complete v) (versions d))"

text \<open>The version and the tracking record that \<^verbatim>\<open>sync\<close> creates in its first transaction.\<close>

definition sync_new_version :: "db \<Rightarrow> pk \<Rightarrow> repository \<Rightarrow> repository_version" where
  "sync_new_version d r repo =
     \<lparr>version_id = next_id d, version_repository = r, number = last_version repo + 1,
      complete = False, content = []\<rparr>"

definition sync_created_resource :: "db \<Rightarrow> created_resource" where
  "sync_created_resource d =
     \<lparr>cr_id = next_id d + 1, content_object = VersionResource (next_id d)\<rparr>"

text \<open>
  \<^verbatim>\<open>sync(importer_pk)\<close>: the result of the task and the database it leaves. The
  content of a version that is not complete is not read by any task; the engine sets it.
\<close>

definition sync :: "collaborators \<Rightarrow> pk \<Rightarrow> db \<Rightarrow> (exn + unit) \<times> db" where
  "sync env importer_pk d =
     (case importers d importer_pk of
        None \<Rightarrow> (Inl DoesNotExist, d)
      | Some imp \<Rightarrow>
          if feed_url imp = None \<or> feed_url imp = Some []
          then (Inl ValueError, d)
          else
            (case repositories d (importer_repository imp) of
               None \<Rightarrow> (Inl DoesNotExist, d)
             | Some repo \<Rightarrow>
                 (let r = importer_repository imp;
                      base_version = latest_complete d r;
                      new_v = sync_new_version d r repo;
                      created = sync_created_resource d;
                      d1 = d\<lparr>repositories := (repositories d)(r \<mapsto> repo\<lparr>last_version := number new_v\<rparr>),
                             versions := versions d @ [new_v],
                             created_resources := created_resources d @ [created],
                             next_id := next_id d + 2\<rparr>
                  in case run env (Synchronizer imp new_v base_version) of
                       Inr c \<Rightarrow>
                         (Inr (),
                          d1\<lparr>versions :=
                               map (\<lambda>v. if version_id v = version_id new_v
                                         then v\<lparr>complete := True, content := c\<rparr> else v)
                                 (versions d1)\<rparr>)
                     | Inl e \<Rightarrow>
                         (Inl e,
                          d1\<lparr>versions :=
                               filter (\<lambda>v. version_id v \<noteq> version_id new_v) (versions d1),
                             created_resources :=
                               filter (\<lambda>c. cr_id c \<noteq> cr_id created) (created_resources d1)\<rparr>))))"

text \<open>\<^verbatim>\<open>_find_artifact\<close>: the artifact of a content artifact, or its remote artifact.\<close>

definition find_artifact :: "db \<Rightarrow> content_artifact \<Rightarrow> pk \<Rightarrow> exn + artifact" where
  "find_artifact d ca r =
     (case ca_artifact ca of
        Some a \<Rightarrow> Inr a
      | None \<Rightarrow>
          (case filter (\<lambda>ra. ra_content_artifact ra = ca_id ca \<and> ra_repository ra = r)
                  (remote_artifacts d) of
             [] \<Rightarrow> Inl DoesNotExist
           | [ra] \<Rightarrow> Inr (ra_artifact ra)
           | _ \<Rightarrow> Inl MultipleObjectsReturned))"

text \<open>
  The inner loop of \<^verbatim>\<open>_publish\<close> over the content artifacts of one unit, drained: a
  published artifact is saved and an entry yielded for each, until one raises.
\<close>

fun publish_artifacts ::
  "publication \<Rightarrow> pk \<Rightarrow> content_artifact list \<Rightarrow> db \<Rightarrow> (exn + entry list) \<times> db" where
  "publish_artifacts pub r [] d = (Inr [], d)"
| "publish_artifacts pub r (ca # cas) d =
     (case find_artifact d ca r of
        Inl e \<Rightarrow> (Inl e, d)
      | Inr a \<Rightarrow>
          (let published =
                 \<lparr>published_id = next_id d, published_relative_path = relative_path ca,
                  published_publication = publication_id pub,
                  published_content_artifact = ca_id ca\<rparr>;
               d1 = d\<lparr>published_artifacts := published_artifacts d @ [published],
                      next_id := next_id d + 1\<rparr>;
               e = \<lparr>entry_path = relative_path ca, entry_digest = sha256 a,
                    entry_size = artifact_size a\<rparr>
           in case publish_artifacts pub r cas d1 of
                (Inl x, d2) \<Rightarrow> (Inl x, d2)
              | (Inr es, d2) \<Rightarrow> (Inr (e # es), d2)))"

text \<open>The outer loop of \<^verbatim>\<open>_publish\<close> over the content of the version.\<close>

fun publish_units ::
  "publication \<Rightarrow> pk \<Rightarrow> content_unit list \<Rightarrow> db \<Rightarrow> (exn + entry list) \<times> db" where
  "publish_units pub r [] d = (Inr [], d)"
| "publish_units pub r (c # cs) d =
     (case publish_artifacts pub r (contentartifact_set c) d of
        (Inl x, d1) \<Rightarrow> (Inl x, d1)
      | (Inr es, d1) \<Rightarrow>
          (case publish_units pub r cs d1 of
             (Inl x, d2) \<Rightarrow> (Inl x, d2)
           | (Inr es', d2) \<Rightarrow> (Inr (es @ es'), d2)))"

text \<open>
  The body of the \<^verbatim>\<open>try\<close> of \<^verbatim>\<open>publish\<close>: the entries are written to the manifest
  file (\<open>manifest_write\<close>, a collaborator that may raise) and the metadata row is saved.
\<close>

definition publish_body ::
  "(entry list \<Rightarrow> exn option) \<Rightarrow> publication \<Rightarrow> repository_version \<Rightarrow> db
     \<Rightarrow> (exn + unit) \<times> db" where
  "publish_body manifest_write pub v d =
     (case publish_units pub (version_repository v) (content v) d of
        (Inl x, d1) \<Rightarrow> (Inl x, d1)
      | (Inr es, d1) \<Rightarrow>
          (case manifest_write es of
             Some x \<Rightarrow> (Inl x, d1)
           | None \<Rightarrow>
               (Inr (),
                d1\<lparr>published_metadatas :=
                     published_metadatas d1 @
                       [\<lparr>metadata_id = next_id d1, metadata_relative_path = ''PULP_MANIFEST'',
                         metadata_publication = publication_id pub, metadata_file = es\<rparr>],
                   next_id := next_id d1 + 1\<rparr>)))"

text \<open>
  \<^verbatim>\<open>publication.delete()\<close> and \<^verbatim>\<open>created_resource.delete()\<close> of the handler; the
  rows that refer to the publication go with it.
\<close>

definition delete_publication :: "publication \<Rightarrow> created_resource \<Rightarrow> db \<Rightarrow> db" where
  "delete_publication pub created d =
     d\<lparr>publications := filter (\<lambda>p. publication_id p \<noteq> publication_id pub) (publications d),
       published_artifacts :=
         filter (\<lambda>a. published_publication a \<noteq> publication_id pub) (published_artifacts d),
       published_metadatas :=
         filter (\<lambda>m. metadata_publication m \<noteq> publication_id pub) (published_metadatas d),
       created_resources := filter (\<lambda>c. cr_id c \<noteq> cr_id created) (created_resources d)\<rparr>"

text \<open>
  \<^verbatim>\<open>publish(publisher_pk, repository_pk)\<close>. The handler of the \<^verbatim>\<open>try\<close> deletes the
  publication and the tracking record and has no \<^verbatim>\<open>raise\<close>: the task goes on to its
  last log line and returns.
\<close>

definition publish ::
  "(entry list \<Rightarrow> exn option) \<Rightarrow> pk \<Rightarrow> pk \<Rightarrow> db \<Rightarrow> (exn + unit) \<times> db" where
  "publish manifest_write publisher_pk repository_pk d =
     (case publishers d publisher_pk of
        None \<Rightarrow> (Inl DoesNotExist, d)
      | Some publisher \<Rightarrow>
          (case repositories d repository_pk of
             None \<Rightarrow> (Inl DoesNotExist, d)
           | Some repo \<Rightarrow>
               (case latest_complete d repository_pk of
                  None \<Rightarrow> (Inl DoesNotExist, d)
                | Some v \<Rightarrow>
                    (let pub = \<lparr>publication_id = next_id d, publication_publisher = publisher_pk,
                                publication_version = version_id v\<rparr>;
                         created = \<lparr>cr_id = next_id d + 1,
                                    content_object = PublicationResource (next_id d)\<rparr>;
                         d1 = d\<lparr>publications := publications d @ [pub],
                                created_resources := created_resources d @ [created],
                                next_id := next_id d + 2\<rparr>
                     in case publish_body manifest_write pub v d1 of
                          (Inr u, d2) \<Rightarrow> (Inr (), d2)
                        | (Inl e, d2) \<Rightarrow> (Inr (), delete_publication pub created d2)))))"

section \<open>Notions used to state the properties\<close>

text \<open>The natural keys of a manifest entry, of a descriptor and of a stored unit.\<close>

definition entry_key :: "entry \<Rightarrow> key" where
  "entry_key e = Key (entry_path e) (entry_digest e)"

definition pending_key :: "pending_content \<Rightarrow> key" where
  "pending_key d = Key (fc_path (pc_model d)) (fc_digest (pc_model d))"

definition content_key :: "content_unit \<Rightarrow> key" where
  "content_key c = Key (content_path c) (content_digest c)"

text \<open>The descriptor that the body of the loop of \<^verbatim>\<open>_build_additions\<close> builds for an entry.\<close>

definition descriptor ::
  "(parse_result \<Rightarrow> string) \<Rightarrow> parse_result \<Rightarrow> entry \<Rightarrow> pending_content" where
  "descriptor unparse parsed_url e =
     \<lparr>pc_model = \<lparr>fc_path = entry_path e, fc_digest = entry_digest e\<rparr>,
      pc_artifacts =
        {\<lparr>pa_model = \<lparr>artifact_size = entry_size e, sha256 = entry_digest e\<rparr>,
          pa_url =
            unparse
              (parsed_url\<lparr>url_path := join (dirname (url_path parsed_url)) (entry_path e)\<rparr>),
          pa_relative_path = entry_path e\<rparr>}\<rparr>"

text \<open>The keys of the content of the old version, if there is one.\<close>

definition inventory_of :: "repository_version option \<Rightarrow> key set" where
  "inventory_of ov = (case ov of None \<Rightarrow> {} | Some v \<Rightarrow> content_key ` set (content v))"

text \<open>
  The identifiers that the query for one key finds in the content of a version: what
  \<^verbatim>\<open>Q(filecontent__path=key.path, filecontent__digest=key.digest)\<close> selects.
\<close>

definition found_ids :: "repository_version \<Rightarrow> key \<Rightarrow> nat list" where
  "found_ids v k =
     map content_id
       (filter (\<lambda>c. content_path c = path k \<and> content_digest c = digest k) (content v))"

text \<open>The content a sync starts from: that of the old version, if there is one.\<close>

definition base_content :: "repository_version option \<Rightarrow> content_unit list" where
  "base_content ov = (case ov of None \<Rightarrow> [] | Some v \<Rightarrow> content v)"

text \<open>
  Modelled from the spec: the apply engine (\<^verbatim>\<open>ChangeSet\<close> of the plugin API) is not part
  of this repository. Additions and removals are fully applied to a base content when
  the result holds, by natural key, the units of the base whose identifier is not among
  the removals and one unit for each added descriptor.
\<close>

definition fully_applied ::
  "content_unit list \<Rightarrow> pending_content list \<Rightarrow> nat list \<Rightarrow> content_unit list \<Rightarrow> bool" where
  "fully_applied base adds rems result \<longleftrightarrow>
     content_key ` set result =
       content_key ` set (filter (\<lambda>c. content_id c \<notin> set rems) base) \<union> pending_key ` set adds"

text \<open>Iterating the set \<open>K\<close> visits each of its elements once.\<close>

definition enumerates :: "('a set \<Rightarrow> 'a list) \<Rightarrow> 'a set \<Rightarrow> bool" where
  "enumerates iter K \<longleftrightarrow> set (iter K) = K \<and> distinct (iter K)"

text \<open>The keys of a sequence of manifest entries, \<open>keys(R)\<close> of the specification.\<close>

definition keys_of :: "entry list \<Rightarrow> key set" where
  "keys_of R = (\<lambda>e. Key (entry_path e) (entry_digest e)) ` set R"

section \<open>Example data\<close>

definition example_importer :: importer where
  "example_importer =
     \<lparr>importer_name = ''files'', feed_url = Some ''http://host/repo/PULP_MANIFEST'',
      importer_repository = ''repo''\<rparr>"

definition example_version :: repository_version where
  "example_version =
     \<lparr>version_id = 7, version_repository = ''repo'', number = 2, complete = False,
      content = []\<rparr>"

text \<open>A parser and an unparser for URLs of the form \<open>scheme://host/path\<close>.\<close>

definition example_urlparse :: "string \<Rightarrow> parse_result" where
  "example_urlparse u =
     \<lparr>scheme = takeWhile (\<lambda>c. c \<noteq> CHR '':'') u,
      netloc = takeWhile (\<lambda>c. c \<noteq> CHR ''/'') (drop 3 (dropWhile (\<lambda>c. c \<noteq> CHR '':'') u)),
      url_path = dropWhile (\<lambda>c. c \<noteq> CHR ''/'') (drop 3 (dropWhile (\<lambda>c. c \<noteq> CHR '':'') u)),
      params = [], query = [], fragment = []\<rparr>"

definition example_urlunparse :: "parse_result \<Rightarrow> string" where
  "example_urlunparse p = scheme p @ ''://'' @ netloc p @ url_path p"

definition entry_of :: "string \<Rightarrow> string \<Rightarrow> int \<Rightarrow> entry" where
  "entry_of p d n = \<lparr>entry_path = p, entry_digest = d, entry_size = n\<rparr>"

text \<open>An iteration order for the sets of the three keys of the examples.\<close>

definition example_iter :: "key set \<Rightarrow> key list" where
  "example_iter K =
     filter (\<lambda>k. k \<in> K) [Key ''a.txt'' ''d1'', Key ''b.txt'' ''d2'', Key ''old.txt'' ''dX'']"

definition example_env :: collaborators where
  "example_env =
     \<lparr>download = (\<lambda>u. Inr [entry_of ''a.txt'' ''d1'' 10, entry_of ''b.txt'' ''d2'' 20]),
      urlparse = example_urlparse, urlunparse = example_urlunparse,
      iter_keys = example_iter, batch_size = 2,
      apply_and_drain = (\<lambda>imp v additions removals. Inr [])\<rparr>"

definition example_old_version :: repository_version where
  "example_old_version =
     \<lparr>version_id = 3, version_repository = ''repo'', number = 1, complete = True,
      content =
        [\<lparr>content_id = 1, content_path = ''a.txt'', content_digest = ''d1'',
          contentartifact_set = []\<rparr>,
         \<lparr>content_id = 2, content_path = ''old.txt'', content_digest = ''dX'',
          contentartifact_set = []\<rparr>]\<rparr>"

definition example_removal_state :: synchronizer where
  "example_removal_state =
     (Synchronizer example_importer example_version (Some example_old_version))
       \<lparr>keys_to_remove := {Key ''old.txt'' ''dX'', Key ''b.txt'' ''d2''}\<rparr>"

definition example_applied_version :: repository_version where
  "example_applied_version =
     \<lparr>version_id = 7, version_repository = ''repo'', number = 2, complete = True,
      content =
        [\<lparr>content_id = 1, content_path = ''a.txt'', content_digest = ''d1'',
          contentartifact_set = []\<rparr>,
         \<lparr>content_id = 9, content_path = ''b.txt'', content_digest = ''d2'',
          contentartifact_set = []\<rparr>]\<rparr>"

definition example_delta_state :: synchronizer where
  "example_delta_state =
     \<lparr>importer = example_importer, new_version = example_version,
      old_version = Some example_old_version,
      manifest = Some [entry_of ''a.txt'' ''d1'' 10, entry_of ''b.txt'' ''d2'' 20],
      inventory_keys = {Key ''a.txt'' ''d1'', Key ''old.txt'' ''dX''},
      keys_to_add = {Key ''b.txt'' ''d2''},
      keys_to_remove = {Key ''old.txt'' ''dX''}\<rparr>"

text \<open>A database with one repository, its complete version 1 and an importer.\<close>

definition example_published_version :: repository_version where
  "example_published_version =
     \<lparr>version_id = 3, version_repository = ''repo'', number = 1, complete = True,
      content =
        [\<lparr>content_id = 1, content_path = ''a.txt'', content_digest = ''d1'',
          contentartifact_set =
            [\<lparr>ca_id = 4, relative_path = ''a.txt'',
              ca_artifact = Some \<lparr>artifact_size = 10, sha256 = ''d1''\<rparr>\<rparr>]\<rparr>]\<rparr>"

definition example_db :: db where
  "example_db =
     \<lparr>importers = [''imp'' \<mapsto> example_importer],
      publishers = [''pub'' \<mapsto> \<lparr>publisher_name = ''publisher''\<rparr>],
      repositories = [''repo'' \<mapsto> \<lparr>repository_name = ''files'', last_version = 1\<rparr>],
      versions = [example_published_version],
      created_resources = [\<lparr>cr_id = 5, content_object = VersionResource 3\<rparr>],
      publications = [], published_artifacts = [], published_metadatas = [],
      remote_artifacts = [], next_id = 10\<rparr>"

text \<open>Collaborators whose download fails.\<close>

definition failing_env :: collaborators where
  "failing_env = example_env\<lparr>download := (\<lambda>u. Inl (Raised ''download failed''))\<rparr>"

section \<open>Delta computation\<close>

lemma batches_Nil [simp]: "batches n [] = []"
  by (simp add: batches.simps [of n "[]"])

lemma inventory_loop_eq:
  "inventory_loop cs ks = ks \<union> (\<lambda>c. Key (content_path c) (content_digest c)) ` set cs"
  by (induction cs arbitrary: ks) auto

lemma find_delta_Some:
  assumes "manifest s = Some R"
  shows "find_delta mirror s =
     Inr (s\<lparr>keys_to_add := keys_of R - inventory_keys s,
            keys_to_remove := (if mirror then inventory_keys s - keys_of R
                               else keys_to_remove s)\<rparr>)"
  using assms by (simp add: find_delta_def keys_of_def Let_def)

text \<open>
  C1. For every sequence of remote entries \<open>R\<close> and every inventory key set \<open>L\<close>, on a
  synchronizer that holds them \<^verbatim>\<open>_find_delta\<close> returns normally with
  \<open>keys_to_add = keys(R) - L\<close>; \<open>keys_to_remove = L - keys(R)\<close> under mirror, and the
  empty set of the constructor otherwise; the two sets are disjoint.
\<close>

theorem find_delta_computes_delta:
  "\<exists>s'. find_delta mirror
            ((Synchronizer imp new_v old_v)\<lparr>manifest := Some R, inventory_keys := L\<rparr>) = Inr s'
        \<and> keys_to_add s' = keys_of R - L
        \<and> keys_to_remove s' = (if mirror then L - keys_of R else {})
        \<and> keys_to_add s' \<inter> keys_to_remove s' = {}"
  by (auto simp add: find_delta_Some Synchronizer_def)

text \<open>
  C7. Without a prior version \<^verbatim>\<open>_fetch_inventory\<close> leaves the inventory key set of
  the constructor, the empty set, and \<^verbatim>\<open>_find_delta\<close> then computes an empty
  \<open>keys_to_remove\<close>, whatever the mirror flag and the manifest are.
\<close>

theorem first_sync_removes_nothing:
  "inventory_keys (fetch_inventory ((Synchronizer imp new_v None)\<lparr>manifest := Some R\<rparr>)) = {}
   \<and> (\<exists>s'. find_delta mirror
               (fetch_inventory ((Synchronizer imp new_v None)\<lparr>manifest := Some R\<rparr>)) = Inr s'
          \<and> keys_to_remove s' = {})"
  by (simp add: find_delta_Some fetch_inventory_def Synchronizer_def)

section \<open>Additions\<close>

lemma additions_loop_eq:
  "additions_loop unparse pu (dirname (url_path pu)) A es =
     map (descriptor unparse pu) (filter (\<lambda>e. entry_key e \<in> A) es)"
  by (induction es) (simp_all add: descriptor_def entry_key_def Let_def)

lemma pending_key_descriptor: "pending_key (descriptor unparse pu e) = entry_key e"
  by (simp add: pending_key_def descriptor_def entry_key_def)

lemma build_additions_eq:
  assumes "manifest s = Some m" "feed_url (importer s) = Some u"
  shows "build_additions parse unparse s =
     Inr (map (descriptor unparse (parse u)) (filter (\<lambda>e. entry_key e \<in> keys_to_add s) m))"
  using assms by (simp add: build_additions_def additions_loop_eq entry_key_def Let_def)

text \<open>
  C2, as amended. \<^verbatim>\<open>_build_additions\<close> yields one descriptor per manifest entry whose
  key is in \<open>keys_to_add\<close>, in the order of the manifest; the keys of the descriptors
  are the keys of the manifest filtered by \<open>keys_to_add\<close>, and they are pairwise
  distinct when the manifest's entries are pairwise distinct by key.
\<close>

theorem build_additions_follows_manifest:
  assumes "manifest s = Some m" and "feed_url (importer s) = Some u"
  shows "\<exists>ds. build_additions parse unparse s = Inr ds
      \<and> ds = map (descriptor unparse (parse u)) (filter (\<lambda>e. entry_key e \<in> keys_to_add s) m)
      \<and> map pending_key ds = filter (\<lambda>k. k \<in> keys_to_add s) (map entry_key m)
      \<and> (distinct (map entry_key m) \<longrightarrow> distinct (map pending_key ds))"
  using assms
  by (simp add: build_additions_eq filter_map o_def pending_key_descriptor distinct_map_filter)

theorem build_additions_follows_manifest_witness:
  "manifest ((Synchronizer example_importer example_version None)
       \<lparr>manifest := Some [entry_of ''a.txt'' ''d1'' 10, entry_of ''b.txt'' ''d2'' 20],
        keys_to_add := {Key ''b.txt'' ''d2''}\<rparr>)
     = Some [entry_of ''a.txt'' ''d1'' 10, entry_of ''b.txt'' ''d2'' 20]
   \<and> feed_url (importer ((Synchronizer example_importer example_version None)
       \<lparr>manifest := Some [entry_of ''a.txt'' ''d1'' 10, entry_of ''b.txt'' ''d2'' 20],
        keys_to_add := {Key ''b.txt'' ''d2''}\<rparr>)) = Some ''http://host/repo/PULP_MANIFEST''
   \<and> distinct (map entry_key [entry_of ''a.txt'' ''d1'' 10, entry_of ''b.txt'' ''d2'' 20])
   \<and> (\<exists>ds. build_additions example_urlparse example_urlunparse
              ((Synchronizer example_importer example_version None)
                 \<lparr>manifest := Some [entry_of ''a.txt'' ''d1'' 10, entry_of ''b.txt'' ''d2'' 20],
                  keys_to_add := {Key ''b.txt'' ''d2''}\<rparr>) = Inr ds
         \<and> map pending_key ds = [Key ''b.txt'' ''d2'']
         \<and> distinct (map pending_key ds))"
proof -
  let ?m = "[entry_of ''a.txt'' ''d1'' 10, entry_of ''b.txt'' ''d2'' 20]"
  let ?s = "(Synchronizer example_importer example_version None)
       \<lparr>manifest := Some ?m, keys_to_add := {Key ''b.txt'' ''d2''}\<rparr>"
  have h1: "manifest ?s = Some ?m" by simp
  have h2: "feed_url (importer ?s) = Some ''http://host/repo/PULP_MANIFEST''"
    by (simp add: Synchronizer_def example_importer_def)
  have h3: "distinct (map entry_key ?m)" by (simp add: entry_key_def entry_of_def)
  have h4: "filter (\<lambda>k. k \<in> keys_to_add ?s) (map entry_key ?m) = [Key ''b.txt'' ''d2'']"
    by (simp add: entry_key_def entry_of_def)
  from build_additions_follows_manifest [OF h1 h2, of example_urlparse example_urlunparse] h3 h4
  show ?thesis using h1 h2 by auto
qed

text \<open>
  C2 as stated fails on a manifest that lists the same key twice: after the delta, both
  occurrences are yielded, the first with its own size, and the two descriptors share
  their key.
\<close>

theorem build_additions_duplicates_counterexample:
  "\<exists>s'. find_delta True
           ((Synchronizer example_importer example_version None)
              \<lparr>manifest := Some [entry_of ''a.txt'' ''d1'' 10, entry_of ''a.txt'' ''d1'' 20]\<rparr>)
           = Inr s'
       \<and> build_additions example_urlparse example_urlunparse s' =
           Inr [descriptor example_urlunparse (example_urlparse ''http://host/repo/PULP_MANIFEST'')
                  (entry_of ''a.txt'' ''d1'' 10),
                descriptor example_urlunparse (example_urlparse ''http://host/repo/PULP_MANIFEST'')
                  (entry_of ''a.txt'' ''d1'' 20)]
       \<and> pending_key
           (descriptor example_urlunparse (example_urlparse ''http://host/repo/PULP_MANIFEST'')
              (entry_of ''a.txt'' ''d1'' 10))
         = pending_key
             (descriptor example_urlunparse (example_urlparse ''http://host/repo/PULP_MANIFEST'')
                (entry_of ''a.txt'' ''d1'' 20))
       \<and> descriptor example_urlunparse (example_urlparse ''http://host/repo/PULP_MANIFEST'')
           (entry_of ''a.txt'' ''d1'' 10)
         \<noteq> descriptor example_urlunparse (example_urlparse ''http://host/repo/PULP_MANIFEST'')
             (entry_of ''a.txt'' ''d1'' 20)"
  by (simp add: find_delta_def build_additions_def Synchronizer_def example_importer_def
        entry_of_def Let_def descriptor_def pending_key_def dirname_def join_def
        example_urlparse_def example_urlunparse_def)

text \<open>
  C5. Each descriptor that \<^verbatim>\<open>_build_additions\<close> yields for a manifest entry whose
  key is in \<open>keys_to_add\<close> carries the size and the digest of that entry, and its URL
  is the unparsed feed URL whose path is replaced by the directory of the feed path
  joined with the entry's path, every other component (scheme, host, parameters,
  query, fragment) being that of the feed URL.
\<close>

theorem build_additions_descriptor:
  assumes "manifest s = Some m" and "feed_url (importer s) = Some u"
  shows "\<exists>ds. build_additions parse unparse s = Inr ds
     \<and> list_all2
         (\<lambda>e d. \<exists>target.
            pc_model d = \<lparr>fc_path = entry_path e, fc_digest = entry_digest e\<rparr>
          \<and> pc_artifacts d =
              {\<lparr>pa_model = \<lparr>artifact_size = entry_size e, sha256 = entry_digest e\<rparr>,
                pa_url = unparse target, pa_relative_path = entry_path e\<rparr>}
          \<and> url_path target = join (dirname (url_path (parse u))) (entry_path e)
          \<and> scheme target = scheme (parse u) \<and> netloc target = netloc (parse u)
          \<and> params target = params (parse u) \<and> query target = query (parse u)
          \<and> fragment target = fragment (parse u))
         (filter (\<lambda>e. Key (entry_path e) (entry_digest e) \<in> keys_to_add s) m) ds"
proof -
  let ?P = "\<lambda>e d. \<exists>target.
            pc_model d = \<lparr>fc_path = entry_path e, fc_digest = entry_digest e\<rparr>
          \<and> pc_artifacts d =
              {\<lparr>pa_model = \<lparr>artifact_size = entry_size e, sha256 = entry_digest e\<rparr>,
                pa_url = unparse target, pa_relative_path = entry_path e\<rparr>}
          \<and> url_path target = join (dirname (url_path (parse u))) (entry_path e)
          \<and> scheme target = scheme (parse u) \<and> netloc target = netloc (parse u)
          \<and> params target = params (parse u) \<and> query target = query (parse u)
          \<and> fragment target = fragment (parse u)"
  have one: "?P e (descriptor unparse (parse u) e)" for e
    by (rule exI [of _ "(parse u)\<lparr>url_path := join (dirname (url_path (parse u))) (entry_path e)\<rparr>"])
       (simp add: descriptor_def)
  have all: "list_all2 ?P xs (map (descriptor unparse (parse u)) xs)" for xs
    unfolding list_all2_map2 list_all2_same using one by blast
  have "build_additions parse unparse s =
      Inr (map (descriptor unparse (parse u)) (filter (\<lambda>e. entry_key e \<in> keys_to_add s) m))"
    using assms by (rule build_additions_eq)
  then show ?thesis using all by (auto simp add: entry_key_def)
qed

theorem build_additions_descriptor_witness:
  "manifest ((Synchronizer example_importer example_version None)
       \<lparr>manifest := Some [entry_of ''a.txt'' ''d1'' 10, entry_of ''b.txt'' ''d2'' 20],
        keys_to_add := {Key ''b.txt'' ''d2''}\<rparr>)
     = Some [entry_of ''a.txt'' ''d1'' 10, entry_of ''b.txt'' ''d2'' 20]
   \<and> feed_url (importer ((Synchronizer example_importer example_version None)
       \<lparr>manifest := Some [entry_of ''a.txt'' ''d1'' 10, entry_of ''b.txt'' ''d2'' 20],
        keys_to_add := {Key ''b.txt'' ''d2''}\<rparr>)) = Some ''http://host/repo/PULP_MANIFEST''
   \<and> (\<exists>ds. build_additions example_urlparse example_urlunparse
              ((Synchronizer example_importer example_version None)
                 \<lparr>manifest := Some [entry_of ''a.txt'' ''d1'' 10, entry_of ''b.txt'' ''d2'' 20],
                  keys_to_add := {Key ''b.txt'' ''d2''}\<rparr>) = Inr ds
         \<and> length ds = 1)
   \<and> build_additions example_urlparse example_urlunparse
              ((Synchronizer example_importer example_version None)
                 \<lparr>manifest := Some [entry_of ''a.txt'' ''d1'' 10, entry_of ''b.txt'' ''d2'' 20],
                  keys_to_add := {Key ''b.txt'' ''d2''}\<rparr>)
       = Inr [\<lparr>pc_model = \<lparr>fc_path = ''b.txt'', fc_digest = ''d2''\<rparr>,
               pc_artifacts =
                 {\<lparr>pa_model = \<lparr>artifact_size = 20, sha256 = ''d2''\<rparr>,
                   pa_url = ''http://host/repo/b.txt'', pa_relative_path = ''b.txt''\<rparr>}\<rparr>]"
proof -
  let ?m = "[entry_of ''a.txt'' ''d1'' 10, entry_of ''b.txt'' ''d2'' 20]"
  let ?s = "(Synchronizer example_importer example_version None)
       \<lparr>manifest := Some ?m, keys_to_add := {Key ''b.txt'' ''d2''}\<rparr>"
  have h1: "manifest ?s = Some ?m" by simp
  have h2: "feed_url (importer ?s) = Some ''http://host/repo/PULP_MANIFEST''"
    by (simp add: Synchronizer_def example_importer_def)
  have sel: "filter (\<lambda>e. Key (entry_path e) (entry_digest e) \<in> keys_to_add ?s) ?m
      = [entry_of ''b.txt'' ''d2'' 20]"
    by (simp add: entry_of_def)
  have c: "build_additions example_urlparse example_urlunparse ?s
       = Inr [\<lparr>pc_model = \<lparr>fc_path = ''b.txt'', fc_digest = ''d2''\<rparr>,
               pc_artifacts =
                 {\<lparr>pa_model = \<lparr>artifact_size = 20, sha256 = ''d2''\<rparr>,
                   pa_url = ''http://host/repo/b.txt'', pa_relative_path = ''b.txt''\<rparr>}\<rparr>]"
    by (simp add: build_additions_def Synchronizer_def example_importer_def entry_of_def Let_def
          dirname_def join_def example_urlparse_def example_urlunparse_def)
  from build_additions_descriptor [OF h1 h2, of example_urlparse example_urlunparse]
  have "\<exists>ds. build_additions example_urlparse example_urlunparse ?s = Inr ds \<and> length ds = 1"
    unfolding sel by (auto dest: list_all2_lengthD)
  then show ?thesis using h1 h2 c by blast
qed

section \<open>The change set of a run\<close>

lemma keys_of_entry_key: "keys_of m = set (map entry_key m)"
  by (simp add: keys_of_def entry_key_def)

lemma length_filter_distinct_card:
  assumes "distinct xs" "A \<subseteq> set xs"
  shows "length (filter (\<lambda>x. x \<in> A) xs) = card A"
proof -
  have "distinct (filter (\<lambda>x. x \<in> A) xs)" using assms(1) by simp
  then have "length (filter (\<lambda>x. x \<in> A) xs) = card (set (filter (\<lambda>x. x \<in> A) xs))"
    by (simp only: distinct_card)
  also have "set (filter (\<lambda>x. x \<in> A) xs) = A" using assms(2) by auto
  finally show ?thesis .
qed

lemma removals_loop_Some:
  "removals_loop (Some v) bs =
     Inr (concat (map (\<lambda>b. map content_id (filter_q (build_q b None) (content v))) bs))"
  by (induction bs) simp_all

text \<open>The synchronizer of a fresh run after the manifest, the inventory and the delta.\<close>

lemma run_delta:
  assumes "download env (feed_url imp) = Inr m"
  shows "fetch_manifest (download env) (Synchronizer imp nv ov)
           = Inr ((Synchronizer imp nv ov)\<lparr>manifest := Some m\<rparr>)"
    and "find_delta True (fetch_inventory ((Synchronizer imp nv ov)\<lparr>manifest := Some m\<rparr>))
           = Inr \<lparr>importer = imp, new_version = nv, old_version = ov, manifest = Some m,
                  inventory_keys = inventory_of ov,
                  keys_to_add = keys_of m - inventory_of ov,
                  keys_to_remove = inventory_of ov - keys_of m\<rparr>"
proof -
  show "fetch_manifest (download env) (Synchronizer imp nv ov)
           = Inr ((Synchronizer imp nv ov)\<lparr>manifest := Some m\<rparr>)"
    using assms(1) by (simp add: fetch_manifest_def Synchronizer_def)
  have "fetch_inventory ((Synchronizer imp nv ov)\<lparr>manifest := Some m\<rparr>)
      = (Synchronizer imp nv ov)\<lparr>manifest := Some m, inventory_keys := inventory_of ov\<rparr>"
    by (auto simp add: fetch_inventory_def Synchronizer_def inventory_of_def inventory_loop_eq
          content_key_def split: option.splits)
  then show "find_delta True (fetch_inventory ((Synchronizer imp nv ov)\<lparr>manifest := Some m\<rparr>))
           = Inr \<lparr>importer = imp, new_version = nv, old_version = ov, manifest = Some m,
                  inventory_keys = inventory_of ov,
                  keys_to_add = keys_of m - inventory_of ov,
                  keys_to_remove = inventory_of ov - keys_of m\<rparr>"
    by (simp add: find_delta_Some Synchronizer_def)
qed

lemma run_changes_state:
  assumes "download env (feed_url imp) = Inr m"
    and "run_changes env (Synchronizer imp nv ov) = Inr (s', adds, rems)"
  shows "s' = \<lparr>importer = imp, new_version = nv, old_version = ov, manifest = Some m,
                inventory_keys = inventory_of ov,
                keys_to_add = keys_of m - inventory_of ov,
                keys_to_remove = inventory_of ov - keys_of m\<rparr>"
  using assms(2) by (simp add: run_changes_def run_delta [OF assms(1)] split: sum.splits)

text \<open>
  C9. When the entries of the fetched manifest are pairwise distinct by key, the run of
  a fresh synchronizer reaches the change set, and the additions handed to the apply
  engine are what \<^verbatim>\<open>_build_additions\<close> yields: as many descriptors as the declared
  length \<open>len(keys_to_add)\<close>, each with its key in \<open>keys_to_add\<close>.
\<close>

theorem additions_length_matches_declared:
  assumes "download env (feed_url imp) = Inr m" and "distinct (map entry_key m)"
    and "feed_url imp = Some u" and "enumerates (iter_keys env) {}"
  shows "\<exists>s' adds rems. run_changes env (Synchronizer imp nv ov) = Inr (s', adds, rems)
     \<and> build_additions (urlparse env) (urlunparse env) s' = Inr (iterable adds)
     \<and> declared_length adds = card (keys_to_add s')
     \<and> length (iterable adds) = declared_length adds
     \<and> (\<forall>d\<in>set (iterable adds). pending_key d \<in> keys_to_add s')"
proof -
  define s2 where "s2 = \<lparr>importer = imp, new_version = nv, old_version = ov, manifest = Some m,
      inventory_keys = inventory_of ov, keys_to_add = keys_of m - inventory_of ov,
      keys_to_remove = inventory_of ov - keys_of m\<rparr>"
  note rd = run_delta [OF assms(1), of nv ov, folded s2_def]
  have m2: "manifest s2 = Some m" and f2: "feed_url (importer s2) = Some u"
    using assms(3) by (simp_all add: s2_def)
  have ba: "build_additions (urlparse env) (urlunparse env) s2 =
      Inr (map (descriptor (urlunparse env) (urlparse env u))
             (filter (\<lambda>e. entry_key e \<in> keys_to_add s2) m))"
    using m2 f2 by (rule build_additions_eq)
  have sub: "keys_to_add s2 \<subseteq> set (map entry_key m)"
    by (auto simp add: s2_def keys_of_entry_key)
  have len: "length (filter (\<lambda>e. entry_key e \<in> keys_to_add s2) m) = card (keys_to_add s2)"
    using length_filter_distinct_card [OF assms(2) sub] by (simp add: filter_map o_def)
  have "\<exists>rems. build_removals (iter_keys env) (batch_size env) s2 = Inr rems"
  proof (cases ov)
    case None
    then have "keys_to_remove s2 = {}" "old_version s2 = None" by (simp_all add: s2_def inventory_of_def)
    then show ?thesis using assms(4) by (simp add: build_removals_def enumerates_def)
  next
    case (Some v)
    then have "old_version s2 = Some v" by (simp add: s2_def)
    then show ?thesis by (simp add: build_removals_def removals_loop_Some)
  qed
  then obtain rems where br: "build_removals (iter_keys env) (batch_size env) s2 = Inr rems" ..
  show ?thesis
    using rd ba br len by (auto simp add: run_changes_def pending_key_descriptor)
qed

theorem additions_length_matches_declared_witness:
  "download example_env (feed_url example_importer)
      = Inr [entry_of ''a.txt'' ''d1'' 10, entry_of ''b.txt'' ''d2'' 20]
   \<and> distinct (map entry_key [entry_of ''a.txt'' ''d1'' 10, entry_of ''b.txt'' ''d2'' 20])
   \<and> feed_url example_importer = Some ''http://host/repo/PULP_MANIFEST''
   \<and> enumerates (iter_keys example_env) {}
   \<and> (\<exists>s' adds rems.
         run_changes example_env (Synchronizer example_importer example_version None)
           = Inr (s', adds, rems)
       \<and> keys_to_add s' = {Key ''a.txt'' ''d1'', Key ''b.txt'' ''d2''}
       \<and> declared_length adds = 2
       \<and> length (iterable adds) = 2)"
proof -
  let ?m = "[entry_of ''a.txt'' ''d1'' 10, entry_of ''b.txt'' ''d2'' 20]"
  have h1: "download example_env (feed_url example_importer) = Inr ?m"
    by (simp add: example_env_def)
  have h2: "distinct (map entry_key ?m)" by (simp add: entry_key_def entry_of_def)
  have h3: "feed_url example_importer = Some ''http://host/repo/PULP_MANIFEST''"
    by (simp add: example_importer_def)
  have h4: "enumerates (iter_keys example_env) {}"
    by (simp add: enumerates_def example_env_def example_iter_def)
  from additions_length_matches_declared [OF h1 h2 h3 h4, of example_version None]
  obtain s' adds rems where
    r: "run_changes example_env (Synchronizer example_importer example_version None)
          = Inr (s', adds, rems)"
    and d: "declared_length adds = card (keys_to_add s')"
    and l: "length (iterable adds) = declared_length adds"
    by blast
  have e: "s' = \<lparr>importer = example_importer, new_version = example_version,
       old_version = None, manifest = Some ?m, inventory_keys = inventory_of None,
       keys_to_add = keys_of ?m - inventory_of None,
       keys_to_remove = inventory_of None - keys_of ?m\<rparr>"
    by (rule run_changes_state [OF h1 r])
  have ka: "keys_to_add s' = {Key ''a.txt'' ''d1'', Key ''b.txt'' ''d2''}"
    unfolding e by (simp add: inventory_of_def keys_of_def entry_of_def)
  have n: "declared_length adds = 2 \<and> length (iterable adds) = 2"
    using d l unfolding ka by simp
  show ?thesis
    using h1 h2 h3 h4 r ka n by (intro conjI exI [of _ s'] exI [of _ adds] exI [of _ rems]) simp_all
qed

section \<open>Removals\<close>

lemma content_key_eq: "content_key c = k \<longleftrightarrow> content_path c = path k \<and> content_digest c = digest k"
  by (cases k) (auto simp add: content_key_def)

lemma build_q_sem:
  "ks \<noteq> [] \<Longrightarrow>
     \<exists>p. build_q ks q = Some p
       \<and> (\<forall>c. p c \<longleftrightarrow> (case q of None \<Rightarrow> False | Some p' \<Rightarrow> p' c) \<or> content_key c \<in> set ks)"
proof (induction ks arbitrary: q)
  case Nil
  then show ?case by simp
next
  case (Cons k ks)
  let ?q = "Some (\<lambda>c. (case q of None \<Rightarrow> False | Some p \<Rightarrow> p c)
                 \<or> (content_path c = path k \<and> content_digest c = digest k))"
  show ?case
  proof (cases "ks = []")
    case True
    then show ?thesis by (auto simp add: content_key_eq)
  next
    case False
    from Cons.IH [OF False, of ?q] obtain p where
      p: "build_q ks ?q = Some p"
      and sem: "\<forall>c. p c \<longleftrightarrow> (case ?q of None \<Rightarrow> False | Some p' \<Rightarrow> p' c) \<or> content_key c \<in> set ks"
      by blast
    have "build_q (k # ks) q = Some p" using p by simp
    moreover have "\<forall>c. p c \<longleftrightarrow> (case q of None \<Rightarrow> False | Some p' \<Rightarrow> p' c) \<or> content_key c \<in> set (k # ks)"
      using sem by (auto simp add: content_key_eq)
    ultimately show ?thesis by blast
  qed
qed

lemma filter_q_batch:
  assumes "b \<noteq> []"
  shows "filter_q (build_q b None) cs = filter (\<lambda>c. content_key c \<in> set b) cs"
proof -
  from build_q_sem [OF assms, of None] obtain p where
    "build_q b None = Some p" and "\<forall>c. p c \<longleftrightarrow> content_key c \<in> set b"
    by auto
  then show ?thesis by (simp add: filter_q_def cong: filter_cong)
qed

lemma batches_concat: "0 < n \<Longrightarrow> concat (batches n xs) = xs"
proof (induction n xs rule: batches.induct)
  case (1 n xs)
  show ?case
  proof (cases "xs = []")
    case True
    then show ?thesis by (simp add: batches.simps [of n xs])
  next
    case False
    with 1 show ?thesis by (simp add: batches.simps [of n xs])
  qed
qed

lemma batches_nonempty: "b \<in> set (batches n xs) \<Longrightarrow> b \<noteq> []"
proof (induction n xs rule: batches.induct)
  case (1 n xs)
  show ?case
  proof (cases "n = 0 \<or> xs = []")
    case True
    with "1.prems" show ?thesis by (simp add: batches.simps [of n xs])
  next
    case False
    with "1.prems" have "b = take n xs \<or> b \<in> set (batches n (drop n xs))"
      by (simp add: batches.simps [of n xs])
    then show ?thesis
    proof
      assume "b = take n xs"
      with False show ?thesis by simp
    next
      assume "b \<in> set (batches n (drop n xs))"
      with "1.IH" False show ?thesis by simp
    qed
  qed
qed

lemma length_filter_disjoint:
  assumes "\<And>x. \<not> (A x \<and> B x)"
  shows "length (filter A xs) + length (filter B xs) = length (filter (\<lambda>x. A x \<or> B x) xs)"
  using assms by (induction xs) auto

lemma count_batched:
  assumes "distinct (concat bs)"
  shows "length (filter P (concat (map (\<lambda>b. map content_id
             (filter (\<lambda>c. content_key c \<in> set b) cs)) bs)))
       = length (filter (\<lambda>c. P (content_id c) \<and> content_key c \<in> set (concat bs)) cs)"
  using assms
proof (induction bs)
  case Nil
  then show ?case by simp
next
  case (Cons b bs)
  have disj: "\<not> ((P (content_id c) \<and> content_key c \<in> set b)
        \<and> (P (content_id c) \<and> content_key c \<in> set (concat bs)))" for c
    using Cons.prems by auto
  have "length (filter P (concat (map (\<lambda>b. map content_id
             (filter (\<lambda>c. content_key c \<in> set b) cs)) (b # bs))))
      = length (filter (\<lambda>c. P (content_id c) \<and> content_key c \<in> set b) cs)
        + length (filter (\<lambda>c. P (content_id c) \<and> content_key c \<in> set (concat bs)) cs)"
    using Cons by (simp add: filter_map o_def conj_commute)
  also have "\<dots> = length (filter (\<lambda>c. (P (content_id c) \<and> content_key c \<in> set b)
        \<or> (P (content_id c) \<and> content_key c \<in> set (concat bs))) cs)"
    using disj by (rule length_filter_disjoint)
  also have "\<dots> = length (filter (\<lambda>c. P (content_id c) \<and> content_key c \<in> set (concat (b # bs))) cs)"
    by (rule arg_cong [where f = length], rule filter_cong) auto
  finally show ?case .
qed

lemma build_removals_ids:
  assumes "old_version s = Some v" and "0 < n"
  shows "build_removals iter n s =
     Inr (concat (map (\<lambda>b. map content_id (filter (\<lambda>c. content_key c \<in> set b) (content v)))
            (batches n (iter (keys_to_remove s)))))"
proof -
  have "map (\<lambda>b. map content_id (filter_q (build_q b None) (content v)))
          (batches n (iter (keys_to_remove s)))
      = map (\<lambda>b. map content_id (filter (\<lambda>c. content_key c \<in> set b) (content v)))
          (batches n (iter (keys_to_remove s)))"
    by (rule map_cong) (simp_all add: filter_q_batch batches_nonempty)
  then show ?thesis unfolding build_removals_def assms(1) removals_loop_Some by (rule arg_cong)
qed

lemma build_removals_count:
  assumes "old_version s = Some v" and "0 < n" and "enumerates iter (keys_to_remove s)"
    and "build_removals iter n s = Inr ids"
  shows "length (filter P ids)
       = length (filter (\<lambda>c. P (content_id c) \<and> content_key c \<in> keys_to_remove s) (content v))"
proof -
  have d: "distinct (concat (batches n (iter (keys_to_remove s))))"
    and e: "set (concat (batches n (iter (keys_to_remove s)))) = keys_to_remove s"
    using assms(2,3) by (simp_all add: batches_concat enumerates_def)
  from assms(4) have i: "ids = concat (map (\<lambda>b. map content_id
        (filter (\<lambda>c. content_key c \<in> set b) (content v))) (batches n (iter (keys_to_remove s))))"
    by (simp add: build_removals_ids [OF assms(1,2)])
  show ?thesis unfolding i count_batched [OF d] e by (rule refl)
qed

lemma length_filter_key_distinct:
  assumes "distinct (map f xs)"
  shows "length (filter (\<lambda>x. f x = k) xs) = (if k \<in> f ` set xs then 1 else 0)"
  using assms by (induction xs) auto

text \<open>
  C6. With an old version, \<^verbatim>\<open>_build_removals\<close> raises nothing. For a key of
  \<open>keys_to_remove\<close> that the lookup does not find in the content of the old version no
  identifier is yielded, and for a key that it finds exactly one is; the yields are as
  many as the keys found. Primary keys and natural keys are unique in the content of
  the version, the set is iterated element by element and the batch size is positive.
\<close>

theorem build_removals_skips_missing_keys:
  assumes "old_version s = Some v"
    and "enumerates iter (keys_to_remove s)" and "0 < n"
    and "distinct (map content_id (content v))"
    and "distinct (map content_key (content v))"
  shows "\<exists>ids. build_removals iter n s = Inr ids
     \<and> (\<forall>k\<in>keys_to_remove s.
          length (filter (\<lambda>i. i \<in> set (found_ids v k)) ids)
            = (if found_ids v k = [] then 0 else 1))
     \<and> length ids = card {k \<in> keys_to_remove s. found_ids v k \<noteq> []}"
proof -
  obtain ids where ids: "build_removals iter n s = Inr ids"
    using build_removals_ids [OF assms(1,3)] by blast
  note cnt = build_removals_count [OF assms(1,3,2) ids]
  have inj: "inj_on content_id (set (content v))"
    using assms(4) by (simp add: distinct_map)
  have fk: "found_ids v k = map content_id (filter (\<lambda>c. content_key c = k) (content v))" for k
    by (simp add: found_ids_def content_key_eq)
  have empty: "found_ids v k = [] \<longleftrightarrow> k \<notin> content_key ` set (content v)" for k
    by (auto simp add: fk filter_empty_conv)
  have per_key: "length (filter (\<lambda>i. i \<in> set (found_ids v k)) ids)
            = (if found_ids v k = [] then 0 else 1)" if k: "k \<in> keys_to_remove s" for k
  proof -
    have "length (filter (\<lambda>i. i \<in> set (found_ids v k)) ids)
        = length (filter (\<lambda>c. content_id c \<in> set (found_ids v k)
             \<and> content_key c \<in> keys_to_remove s) (content v))"
      by (rule cnt)
    also have "\<dots> = length (filter (\<lambda>c. content_key c = k) (content v))"
    proof (rule arg_cong [where f = length], rule filter_cong [OF refl])
      fix c assume c: "c \<in> set (content v)"
      have "content_id c \<in> set (found_ids v k) \<longleftrightarrow> content_key c = k"
        using inj c by (auto simp add: fk inj_on_def)
      then show "(content_id c \<in> set (found_ids v k) \<and> content_key c \<in> keys_to_remove s)
          = (content_key c = k)"
        using k by auto
    qed
    also have "\<dots> = (if k \<in> content_key ` set (content v) then 1 else 0)"
      using assms(5) by (rule length_filter_key_distinct)
    finally show ?thesis by (simp add: empty)
  qed
  have "length ids = length (filter (\<lambda>c. content_key c \<in> keys_to_remove s) (content v))"
    using cnt [of "\<lambda>i. True"] by simp
  also have "\<dots> = length (filter (\<lambda>k. k \<in> keys_to_remove s) (map content_key (content v)))"
    by (simp add: filter_map o_def)
  also have "\<dots> = card (set (filter (\<lambda>k. k \<in> keys_to_remove s) (map content_key (content v))))"
    using assms(5) by (simp only: distinct_card distinct_filter)
  also have "set (filter (\<lambda>k. k \<in> keys_to_remove s) (map content_key (content v)))
      = {k \<in> keys_to_remove s. found_ids v k \<noteq> []}"
    by (auto simp add: empty)
  finally have total: "length ids = card {k \<in> keys_to_remove s. found_ids v k \<noteq> []}" .
  show ?thesis using ids per_key total by blast
qed


theorem build_removals_skips_missing_keys_witness:
  "old_version example_removal_state = Some example_old_version
   \<and> enumerates example_iter (keys_to_remove example_removal_state)
   \<and> (0::nat) < 2
   \<and> distinct (map content_id (content example_old_version))
   \<and> distinct (map content_key (content example_old_version))
   \<and> found_ids example_old_version (Key ''b.txt'' ''d2'') = []
   \<and> found_ids example_old_version (Key ''old.txt'' ''dX'') = [2]
   \<and> build_removals example_iter 2 example_removal_state = Inr [2]
   \<and> (\<exists>ids. build_removals example_iter 2 example_removal_state = Inr ids
        \<and> length (filter (\<lambda>i. i \<in> set (found_ids example_old_version (Key ''b.txt'' ''d2''))) ids) = 0
        \<and> length (filter (\<lambda>i. i \<in> set (found_ids example_old_version (Key ''old.txt'' ''dX''))) ids) = 1)"
proof -
  have h1: "old_version example_removal_state = Some example_old_version"
    by (simp add: example_removal_state_def Synchronizer_def)
  have k: "keys_to_remove example_removal_state = {Key ''old.txt'' ''dX'', Key ''b.txt'' ''d2''}"
    by (simp add: example_removal_state_def)
  have it: "example_iter {Key ''old.txt'' ''dX'', Key ''b.txt'' ''d2''}
      = [Key ''b.txt'' ''d2'', Key ''old.txt'' ''dX'']"
    by (simp add: example_iter_def)
  have h2: "enumerates example_iter (keys_to_remove example_removal_state)"
    unfolding k enumerates_def it by auto
  have h3: "(0::nat) < 2" by simp
  have h4: "distinct (map content_id (content example_old_version))"
    by (simp add: example_old_version_def)
  have h5: "distinct (map content_key (content example_old_version))"
    by (simp add: example_old_version_def content_key_def)
  have f1: "found_ids example_old_version (Key ''b.txt'' ''d2'') = []"
    by (simp add: found_ids_def example_old_version_def)
  have f2: "found_ids example_old_version (Key ''old.txt'' ''dX'') = [2]"
    by (simp add: found_ids_def example_old_version_def)
  have b: "batches 2 [Key ''b.txt'' ''d2'', Key ''old.txt'' ''dX'']
      = [[Key ''b.txt'' ''d2'', Key ''old.txt'' ''dX'']]"
    by (simp add: batches.simps [of 2 "[Key ''b.txt'' ''d2'', Key ''old.txt'' ''dX'']"])
  have c: "build_removals example_iter 2 example_removal_state = Inr [2]"
    unfolding build_removals_def h1 k it b
    by (simp add: filter_q_def example_old_version_def)
  from build_removals_skips_missing_keys [OF h1 h2 h3 h4 h5]
  obtain ids where
    r: "build_removals example_iter 2 example_removal_state = Inr ids"
    and p: "\<forall>k\<in>keys_to_remove example_removal_state.
          length (filter (\<lambda>i. i \<in> set (found_ids example_old_version k)) ids)
            = (if found_ids example_old_version k = [] then 0 else 1)"
    by blast
  have p1: "length (filter (\<lambda>i. i \<in> set (found_ids example_old_version (Key ''b.txt'' ''d2''))) ids) = 0"
    using p [unfolded k, THEN bspec, of "Key ''b.txt'' ''d2''"] f1 by simp
  have p2: "length (filter (\<lambda>i. i \<in> set (found_ids example_old_version (Key ''old.txt'' ''dX''))) ids) = 1"
    using p [unfolded k, THEN bspec, of "Key ''old.txt'' ''dX''"] f2 by simp
  show ?thesis
    using h1 h2 h3 h4 h5 f1 f2 c r p1 p2 by (intro conjI exI [of _ ids]) simp_all
qed

section \<open>A second sync\<close>

lemma inventory_of_base: "inventory_of ov = content_key ` set (base_content ov)"
  by (simp add: inventory_of_def base_content_def split: option.splits)

lemma build_additions_keys:
  assumes "build_additions parse unparse s = Inr ds" and "manifest s = Some m"
    and "keys_to_add s \<subseteq> keys_of m"
  shows "pending_key ` set ds = keys_to_add s"
proof (cases "feed_url (importer s)")
  case None
  with assms(1,2) have "filter (\<lambda>e. Key (entry_path e) (entry_digest e) \<in> keys_to_add s) m = []"
    and "ds = []"
    by (auto simp add: build_additions_def split: if_splits)
  then have "keys_to_add s \<inter> keys_of m = {}"
    by (auto simp add: filter_empty_conv keys_of_def)
  with assms(3) \<open>ds = []\<close> show ?thesis by auto
next
  case (Some u)
  from build_additions_eq [OF assms(2) Some, of parse unparse] assms(1)
  have "ds = map (descriptor unparse (parse u)) (filter (\<lambda>e. entry_key e \<in> keys_to_add s) m)"
    by simp
  then have "map pending_key ds = filter (\<lambda>k. k \<in> keys_to_add s) (map entry_key m)"
    by (simp add: filter_map o_def pending_key_descriptor)
  then have "set (map pending_key ds) = set (filter (\<lambda>k. k \<in> keys_to_add s) (map entry_key m))"
    by (rule arg_cong)
  then have "pending_key ` set ds = keys_to_add s \<inter> keys_of m"
    by (auto simp add: keys_of_entry_key)
  with assms(3) show ?thesis by auto
qed

lemma build_removals_set:
  assumes "old_version s = Some v" and "0 < n" and "enumerates iter (keys_to_remove s)"
    and "build_removals iter n s = Inr ids"
  shows "set ids = content_id ` {c \<in> set (content v). content_key c \<in> keys_to_remove s}"
proof -
  have e: "set (concat (batches n (iter (keys_to_remove s)))) = keys_to_remove s"
    using assms(2,3) by (simp add: batches_concat enumerates_def)
  from assms(4) have "ids = concat (map (\<lambda>b. map content_id
        (filter (\<lambda>c. content_key c \<in> set b) (content v))) (batches n (iter (keys_to_remove s))))"
    by (simp add: build_removals_ids [OF assms(1,2)])
  then have "set ids = content_id ` {c \<in> set (content v).
       content_key c \<in> set (concat (batches n (iter (keys_to_remove s))))}"
    by auto
  then show ?thesis by (simp only: e)
qed

lemma run_changes_parts:
  assumes "download env (feed_url imp) = Inr m"
    and "run_changes env (Synchronizer imp nv ov) = Inr (s', adds, rems)"
  shows "build_additions (urlparse env) (urlunparse env) s' = Inr (iterable adds)"
    and "build_removals (iter_keys env) (batch_size env) s' = Inr (iterable rems)"
  using assms(2)
  by (auto simp add: run_changes_def run_delta [OF assms(1)] split: sum.splits)

text \<open>
  C4. A fresh synchronizer runs (with mirror, as \<^verbatim>\<open>run\<close> always does) up to its change
  set, and its additions and removals are fully applied to the content of the old
  version. Then the delta of a second synchronizer, on the same manifest and on the
  version that holds the result, has empty \<open>keys_to_add\<close> and \<open>keys_to_remove\<close>.
\<close>

theorem second_sync_finds_no_delta:
  assumes "download env (feed_url imp) = Inr m"
    and "run_changes env (Synchronizer imp nv ov) = Inr (s1, adds, rems)"
    and "fully_applied (base_content ov) (iterable adds) (iterable rems) (content v')"
    and "distinct (map content_id (base_content ov))"
    and "enumerates (iter_keys env) (keys_to_remove s1)" and "0 < batch_size env"
  shows "\<exists>s2. find_delta True
                (fetch_inventory ((Synchronizer imp nv' (Some v'))\<lparr>manifest := Some m\<rparr>)) = Inr s2
            \<and> keys_to_add s2 = {} \<and> keys_to_remove s2 = {}"
proof -
  let ?L = "inventory_of ov"
  have s1: "s1 = \<lparr>importer = imp, new_version = nv, old_version = ov, manifest = Some m,
                inventory_keys = ?L, keys_to_add = keys_of m - ?L,
                keys_to_remove = ?L - keys_of m\<rparr>"
    by (rule run_changes_state [OF assms(1,2)])
  have ka: "keys_to_add s1 = keys_of m - ?L" and kr: "keys_to_remove s1 = ?L - keys_of m"
    and m1: "manifest s1 = Some m" and o1: "old_version s1 = ov"
    unfolding s1 by simp_all
  note parts = run_changes_parts [OF assms(1,2)]
  have added: "pending_key ` set (iterable adds) = keys_of m - ?L"
    using build_additions_keys [OF parts(1) m1] ka by auto
  have kept: "content_key ` set (filter (\<lambda>c. content_id c \<notin> set (iterable rems)) (base_content ov))
      = ?L \<inter> keys_of m"
  proof (cases ov)
    case None
    then show ?thesis by (simp add: base_content_def inventory_of_def)
  next
    case (Some v)
    then have ov1: "old_version s1 = Some v" using o1 by simp
    have base: "base_content ov = content v" using Some by (simp add: base_content_def)
    have inj: "inj_on content_id (set (content v))"
      using assms(4) by (simp add: base distinct_map)
    have rs: "set (iterable rems)
        = content_id ` {c \<in> set (content v). content_key c \<in> ?L - keys_of m}"
      using build_removals_set [OF ov1 assms(6,5) parts(2)] by (simp only: kr)
    have "c \<in> set (content v) \<Longrightarrow>
        content_id c \<notin> set (iterable rems) \<longleftrightarrow> content_key c \<in> keys_of m" for c
      using inj by (auto simp add: rs inj_on_def inventory_of_base base)
    then show ?thesis by (auto simp add: base inventory_of_base)
  qed
  have inv: "content_key ` set (content v') = keys_of m"
    using assms(3) unfolding fully_applied_def kept added by auto
  have "fetch_inventory ((Synchronizer imp nv' (Some v'))\<lparr>manifest := Some m\<rparr>)
      = (Synchronizer imp nv' (Some v'))\<lparr>manifest := Some m, inventory_keys := keys_of m\<rparr>"
    by (auto simp add: fetch_inventory_def Synchronizer_def inventory_loop_eq inv [symmetric]
          content_key_def)
  then show ?thesis by (simp add: find_delta_Some Synchronizer_def)
qed


lemma example_run_changes:
  "run_changes example_env (Synchronizer example_importer example_version (Some example_old_version))
     = Inr (example_delta_state,
            \<lparr>iterable =
               [descriptor example_urlunparse (example_urlparse ''http://host/repo/PULP_MANIFEST'')
                  (entry_of ''b.txt'' ''d2'' 20)],
             declared_length = 1\<rparr>,
            \<lparr>iterable = [2], declared_length = 1\<rparr>)"
proof -
  let ?m = "[entry_of ''a.txt'' ''d1'' 10, entry_of ''b.txt'' ''d2'' 20]"
  have h1: "download example_env (feed_url example_importer) = Inr ?m"
    by (simp add: example_env_def)
  have inv: "inventory_of (Some example_old_version) = {Key ''a.txt'' ''d1'', Key ''old.txt'' ''dX''}"
    by (simp add: inventory_of_def example_old_version_def content_key_def)
  have km: "keys_of ?m = {Key ''a.txt'' ''d1'', Key ''b.txt'' ''d2''}"
    by (simp add: keys_of_def entry_of_def)
  have d1: "keys_of ?m - {Key ''a.txt'' ''d1'', Key ''old.txt'' ''dX''} = {Key ''b.txt'' ''d2''}"
    unfolding km by auto
  have d2: "{Key ''a.txt'' ''d1'', Key ''old.txt'' ''dX''} - keys_of ?m = {Key ''old.txt'' ''dX''}"
    unfolding km by auto
  have fd: "find_delta True (fetch_inventory
       ((Synchronizer example_importer example_version (Some example_old_version))
          \<lparr>manifest := Some ?m\<rparr>)) = Inr example_delta_state"
    unfolding run_delta(2) [OF h1] inv d1 d2 example_delta_state_def by (rule refl)
  have ba: "build_additions (urlparse example_env) (urlunparse example_env) example_delta_state
      = Inr [descriptor example_urlunparse (example_urlparse ''http://host/repo/PULP_MANIFEST'')
                  (entry_of ''b.txt'' ''d2'' 20)]"
    by (simp add: build_additions_def example_delta_state_def example_env_def example_importer_def
          entry_of_def descriptor_def Let_def)
  have it: "example_iter {Key ''old.txt'' ''dX''} = [Key ''old.txt'' ''dX'']"
    by (simp add: example_iter_def)
  have b: "batches 2 [Key ''old.txt'' ''dX''] = [[Key ''old.txt'' ''dX'']]"
    by (simp add: batches.simps [of 2 "[Key ''old.txt'' ''dX'']"])
  have br: "build_removals (iter_keys example_env) (batch_size example_env) example_delta_state
      = Inr [2]"
    by (simp add: build_removals_def example_delta_state_def example_env_def it b filter_q_def
          example_old_version_def)
  have ca: "card (keys_to_add example_delta_state) = 1"
    and cr: "card (keys_to_remove example_delta_state) = 1"
    by (simp_all add: example_delta_state_def)
  show ?thesis
    unfolding run_changes_def run_delta(1) [OF h1] by (simp add: fd ba br ca cr)
qed

theorem second_sync_finds_no_delta_witness:
  "download example_env (feed_url example_importer)
     = Inr [entry_of ''a.txt'' ''d1'' 10, entry_of ''b.txt'' ''d2'' 20]
   \<and> keys_to_add example_delta_state = {Key ''b.txt'' ''d2''}
   \<and> keys_to_remove example_delta_state = {Key ''old.txt'' ''dX''}
   \<and> fully_applied (base_content (Some example_old_version))
        [descriptor example_urlunparse (example_urlparse ''http://host/repo/PULP_MANIFEST'')
           (entry_of ''b.txt'' ''d2'' 20)]
        [2] (content example_applied_version)
   \<and> distinct (map content_id (base_content (Some example_old_version)))
   \<and> enumerates (iter_keys example_env) (keys_to_remove example_delta_state)
   \<and> 0 < batch_size example_env
   \<and> (\<exists>s2. find_delta True
              (fetch_inventory
                 ((Synchronizer example_importer example_version (Some example_applied_version))
                    \<lparr>manifest := Some [entry_of ''a.txt'' ''d1'' 10, entry_of ''b.txt'' ''d2'' 20]\<rparr>))
             = Inr s2
          \<and> keys_to_add s2 = {} \<and> keys_to_remove s2 = {})"
proof -
  let ?m = "[entry_of ''a.txt'' ''d1'' 10, entry_of ''b.txt'' ''d2'' 20]"
  let ?d = "descriptor example_urlunparse (example_urlparse ''http://host/repo/PULP_MANIFEST'')
           (entry_of ''b.txt'' ''d2'' 20)"
  have h1: "download example_env (feed_url example_importer) = Inr ?m"
    by (simp add: example_env_def)
  have ka: "keys_to_add example_delta_state = {Key ''b.txt'' ''d2''}"
    and kr: "keys_to_remove example_delta_state = {Key ''old.txt'' ''dX''}"
    by (simp_all add: example_delta_state_def)
  have h3: "fully_applied (base_content (Some example_old_version)) [?d] [2]
      (content example_applied_version)"
    by (simp add: fully_applied_def base_content_def example_old_version_def
          example_applied_version_def content_key_def pending_key_descriptor entry_key_def
          entry_of_def insert_commute)
  have h4: "distinct (map content_id (base_content (Some example_old_version)))"
    by (simp add: base_content_def example_old_version_def)
  have h5: "enumerates (iter_keys example_env) (keys_to_remove example_delta_state)"
    by (simp add: kr enumerates_def example_env_def example_iter_def)
  have h6: "0 < batch_size example_env" by (simp add: example_env_def)
  have h3': "fully_applied (base_content (Some example_old_version))
      (iterable \<lparr>iterable = [?d], declared_length = 1\<rparr>)
      (iterable \<lparr>iterable = [2::nat], declared_length = 1\<rparr>)
      (content example_applied_version)"
    using h3 by simp
  have h5': "enumerates (iter_keys example_env) (keys_to_remove example_delta_state)" by (rule h5)
  note c = second_sync_finds_no_delta [OF h1 example_run_changes h3' h4 h5' h6, of example_version]
  show ?thesis using h1 ka kr h3 h4 h5 h6 c by (intro conjI) 
qed

section \<open>The sync task\<close>

text \<open>
  C8. When the importer has no feed URL, or an empty one, \<^verbatim>\<open>sync\<close> raises
  \<^verbatim>\<open>ValueError\<close> and leaves the database as it found it: no version and no tracking
  record is created and no repository is changed.
\<close>

theorem sync_without_feed_url:
  assumes "importers d importer_pk = Some imp"
    and "feed_url imp = None \<or> feed_url imp = Some []"
  shows "\<exists>d'. sync env importer_pk d = (Inl ValueError, d') \<and> d' = d
     \<and> versions d' = versions d \<and> repositories d' = repositories d
     \<and> created_resources d' = created_resources d"
  using assms by (auto simp add: sync_def)

theorem sync_without_feed_url_witness:
  "importers (example_db\<lparr>importers := [''imp'' \<mapsto> example_importer\<lparr>feed_url := Some []\<rparr>]\<rparr>) ''imp''
     = Some (example_importer\<lparr>feed_url := Some []\<rparr>)
   \<and> feed_url (example_importer\<lparr>feed_url := Some []\<rparr>) = Some []
   \<and> sync example_env ''imp''
        (example_db\<lparr>importers := [''imp'' \<mapsto> example_importer\<lparr>feed_url := Some []\<rparr>]\<rparr>)
      = (Inl ValueError,
         example_db\<lparr>importers := [''imp'' \<mapsto> example_importer\<lparr>feed_url := Some []\<rparr>]\<rparr>)"
proof -
  let ?imp = "example_importer\<lparr>feed_url := Some []\<rparr>"
  let ?d = "example_db\<lparr>importers := [''imp'' \<mapsto> ?imp]\<rparr>"
  have h1: "importers ?d ''imp'' = Some ?imp" by simp
  have h2: "feed_url ?imp = None \<or> feed_url ?imp = Some []" by simp
  from sync_without_feed_url [OF h1 h2, of example_env]
  have "sync example_env ''imp'' ?d = (Inl ValueError, ?d)" by blast
  with h1 show ?thesis by simp
qed

text \<open>
  C10. When the run of the synchronizer raises, \<^verbatim>\<open>sync\<close> raises the same exception
  and leaves the database it found but for two fields: \<open>last_version\<close> of the
  repository stays incremented by one, and two primary keys are used up. Every table
  is as before the sync; in particular the versions and the tracking records are, the
  new version and its tracking record being the only rows deleted. Primary keys of
  existing rows are below the next one the database hands out.
\<close>

theorem failed_sync_keeps_version_number:
  assumes "importers d importer_pk = Some imp"
    and "feed_url imp = Some u" and "u \<noteq> []"
    and "repositories d (importer_repository imp) = Some repo"
    and "run env (Synchronizer imp (sync_new_version d (importer_repository imp) repo)
                    (latest_complete d (importer_repository imp))) = Inl e"
    and "\<forall>v\<in>set (versions d). version_id v < next_id d"
    and "\<forall>c\<in>set (created_resources d). cr_id c < next_id d"
  shows "\<exists>d'. sync env importer_pk d = (Inl e, d')
     \<and> d' = d\<lparr>repositories :=
                 (repositories d)(importer_repository imp \<mapsto>
                    repo\<lparr>last_version := last_version repo + 1\<rparr>),
               next_id := next_id d + 2\<rparr>
     \<and> versions d' = versions d
     \<and> created_resources d' = created_resources d
     \<and> repositories d' =
         (repositories d)(importer_repository imp \<mapsto> repo\<lparr>last_version := last_version repo + 1\<rparr>)"
proof -
  have v: "filter (\<lambda>v. version_id v \<noteq> next_id d) (versions d) = versions d"
    using assms(6) by (auto simp add: filter_id_conv)
  have c: "filter (\<lambda>c. cr_id c \<noteq> Suc (next_id d)) (created_resources d) = created_resources d"
    using assms(7) by (auto simp add: filter_id_conv)
  show ?thesis
    using assms(1-5)
    by (simp add: sync_def Let_def v c sync_new_version_def sync_created_resource_def)
qed


theorem failed_sync_keeps_version_number_witness:
  "importers example_db ''imp'' = Some example_importer
   \<and> feed_url example_importer = Some ''http://host/repo/PULP_MANIFEST''
   \<and> ''http://host/repo/PULP_MANIFEST'' \<noteq> []
   \<and> repositories example_db (importer_repository example_importer)
       = Some \<lparr>repository_name = ''files'', last_version = 1\<rparr>
   \<and> run failing_env
        (Synchronizer example_importer
           (sync_new_version example_db (importer_repository example_importer)
              \<lparr>repository_name = ''files'', last_version = 1\<rparr>)
           (latest_complete example_db (importer_repository example_importer)))
       = Inl (Raised ''download failed'')
   \<and> list_all (\<lambda>v. version_id v < next_id example_db) (versions example_db)
   \<and> list_all (\<lambda>c. cr_id c < next_id example_db) (created_resources example_db)
   \<and> sync failing_env ''imp'' example_db
       = (Inl (Raised ''download failed''),
          example_db
            \<lparr>repositories :=
               (repositories example_db)
                 (''repo'' \<mapsto> \<lparr>repository_name = ''files'', last_version = 2\<rparr>),
             next_id := 12\<rparr>)
   \<and> (\<exists>d'. sync failing_env ''imp'' example_db = (Inl (Raised ''download failed''), d')
        \<and> versions d' = versions example_db
        \<and> created_resources d' = created_resources example_db
        \<and> publications d' = publications example_db
        \<and> published_artifacts d' = published_artifacts example_db
        \<and> published_metadatas d' = published_metadatas example_db
        \<and> remote_artifacts d' = remote_artifacts example_db
        \<and> importers d' = importers example_db
        \<and> publishers d' = publishers example_db
        \<and> repositories d' ''repo'' = Some \<lparr>repository_name = ''files'', last_version = 2\<rparr>)"
proof -
  let ?repo = "\<lparr>repository_name = ''files'', last_version = 1\<rparr>"
  have h1: "importers example_db ''imp'' = Some example_importer"
    by (simp add: example_db_def)
  have h2: "feed_url example_importer = Some ''http://host/repo/PULP_MANIFEST''"
    by (simp add: example_importer_def)
  have h3: "''http://host/repo/PULP_MANIFEST'' \<noteq> []" by simp
  have r: "importer_repository example_importer = ''repo''" by (simp add: example_importer_def)
  have h4: "repositories example_db (importer_repository example_importer) = Some ?repo"
    by (simp add: r example_db_def)
  have h5: "run failing_env
        (Synchronizer example_importer
           (sync_new_version example_db (importer_repository example_importer) ?repo)
           (latest_complete example_db (importer_repository example_importer)))
       = Inl (Raised ''download failed'')"
    by (simp add: run_def run_changes_def fetch_manifest_def failing_env_def)
  have h6: "\<forall>v\<in>set (versions example_db). version_id v < next_id example_db"
    by (simp add: example_db_def example_published_version_def)
  have h7: "\<forall>c\<in>set (created_resources example_db). cr_id c < next_id example_db"
    by (simp add: example_db_def)
  from failed_sync_keeps_version_number [OF h1 h2 h3 h4 h5 h6 h7]
  obtain d' where s: "sync failing_env ''imp'' example_db = (Inl (Raised ''download failed''), d')"
    and f: "d' = example_db\<lparr>repositories :=
                 (repositories example_db)(importer_repository example_importer \<mapsto>
                    ?repo\<lparr>last_version := last_version ?repo + 1\<rparr>),
               next_id := next_id example_db + 2\<rparr>"
    and v: "versions d' = versions example_db"
    and c: "created_resources d' = created_resources example_db"
    and rp: "repositories d' =
         (repositories example_db)(importer_repository example_importer \<mapsto>
            ?repo\<lparr>last_version := last_version ?repo + 1\<rparr>)"
    by blast
  have rp': "repositories d' ''repo'' = Some \<lparr>repository_name = ''files'', last_version = 2\<rparr>"
    unfolding rp r by simp
  have l6: "list_all (\<lambda>v. version_id v < next_id example_db) (versions example_db)"
    using h6 by (simp add: list_all_iff)
  have l7: "list_all (\<lambda>c. cr_id c < next_id example_db) (created_resources example_db)"
    using h7 by (simp add: list_all_iff)
  have n: "next_id example_db + 2 = 12" by (simp add: example_db_def)
  have f': "d' = example_db
            \<lparr>repositories :=
               (repositories example_db)
                 (''repo'' \<mapsto> \<lparr>repository_name = ''files'', last_version = 2\<rparr>),
             next_id := 12\<rparr>"
    unfolding f r n by simp
  have s': "sync failing_env ''imp'' example_db
       = (Inl (Raised ''download failed''),
          example_db
            \<lparr>repositories :=
               (repositories example_db)
                 (''repo'' \<mapsto> \<lparr>repository_name = ''files'', last_version = 2\<rparr>),
             next_id := 12\<rparr>)"
    using s unfolding f' .
  have rest: "publications d' = publications example_db"
    "published_artifacts d' = published_artifacts example_db"
    "published_metadatas d' = published_metadatas example_db"
    "remote_artifacts d' = remote_artifacts example_db"
    "importers d' = importers example_db"
    "publishers d' = publishers example_db"
    unfolding f by simp_all
  show ?thesis
    using h1 h2 h3 h4 h5 l6 l7 s s' v c rp' rest by (intro conjI exI [of _ d'])
qed

section \<open>The publish task\<close>

text \<open>The only exception \<^verbatim>\<open>publish\<close> raises is that of a lookup, before anything is created.\<close>

lemma publish_never_raises_after_creation:
  assumes "publish manifest_write publisher_pk repository_pk d = (Inl e, d')"
  shows "e = DoesNotExist \<and> d' = d"
  using assms by (auto simp add: publish_def Let_def split: option.splits prod.splits sum.splits)

text \<open>
  C3. In \<^verbatim>\<open>publish\<close> the exception is not propagated. On the example database, with a
  manifest file that cannot be written, the body of the \<^verbatim>\<open>try\<close> raises after the
  publication, its tracking record and a published artifact were saved; the task
  deletes them and returns normally.
\<close>

theorem publish_swallows_failure:
  "publish (\<lambda>es. Some (Raised ''IOError'')) ''pub'' ''repo'' example_db
     = (Inr (), example_db\<lparr>next_id := 13\<rparr>)
   \<and> publish_body (\<lambda>es. Some (Raised ''IOError''))
        \<lparr>publication_id = 10, publication_publisher = ''pub'', publication_version = 3\<rparr>
        example_published_version
        (example_db
           \<lparr>publications :=
              [\<lparr>publication_id = 10, publication_publisher = ''pub'', publication_version = 3\<rparr>],
            created_resources :=
              [\<lparr>cr_id = 5, content_object = VersionResource 3\<rparr>,
               \<lparr>cr_id = 11, content_object = PublicationResource 10\<rparr>],
            next_id := 12\<rparr>)
     = (Inl (Raised ''IOError''),
        example_db
           \<lparr>publications :=
              [\<lparr>publication_id = 10, publication_publisher = ''pub'', publication_version = 3\<rparr>],
            created_resources :=
              [\<lparr>cr_id = 5, content_object = VersionResource 3\<rparr>,
               \<lparr>cr_id = 11, content_object = PublicationResource 10\<rparr>],
            published_artifacts :=
              [\<lparr>published_id = 12, published_relative_path = ''a.txt'',
                published_publication = 10, published_content_artifact = 4\<rparr>],
            next_id := 13\<rparr>)"
  by (simp add: publish_def publish_body_def delete_publication_def latest_complete_def
        find_artifact_def example_db_def example_published_version_def Let_def)

end
